theory Spec2Isabelle
  imports Main
begin

section \<open>The acquisition optimizer base class of emukit\<close>

text \<open>
  This theory embeds \<^verbatim>\<open>emukit/core/optimization/acquisition_optimizer.py\<close>:
  the class \<^verbatim>\<open>AcquisitionOptimizerBase\<close> with its constructor, its context
  validation and its public method \<^verbatim>\<open>optimize\<close>.

  The collaborators of the class (parameter space, parameter, acquisition, context
  manager, the abstract method \<^verbatim>\<open>_optimize\<close>, \<^verbatim>\<open>str\<close> and the element comparison
  of numpy) are not part of that file. Each is taken as a parameter: an object is the
  record of the methods that the class calls on it. The methods of the space and of its
  parameters return a value and change nothing, as their interfaces say; the abstract
  method and \<^verbatim>\<open>acquisition.evaluate\<close> act on the store, and the abstract method may
  raise.
\<close>

subsection \<open>Data\<close>

text \<open>
  A numpy array is its shape and the list of its entries. The entries are of an arbitrary
  type \<open>'a\<close>, and so are the context values (\<open>'v\<close>), the design space of GPyOpt
  (\<open>'g\<close>) and the acquisition values (\<open>'y\<close>).
\<close>

record 'a ndarray =
  shape :: "nat list"
  data :: "'a list"

text \<open>A context is a Python dict: its items in iteration order.\<close>

type_synonym 'v Context = "(string \<times> 'v) list"

text \<open>
  What \<^verbatim>\<open>check_in_domain\<close> returns is a Python object: one of the two objects
  \<^verbatim>\<open>True\<close> and \<^verbatim>\<open>False\<close> of the type \<^verbatim>\<open>bool\<close>, or an object of another type that has
  a truth value, such as the \<^verbatim>\<open>numpy.bool_\<close> that \<^verbatim>\<open>np.all\<close> returns. The test
  \<^verbatim>\<open>is False\<close> of line 30 is identity with the object \<^verbatim>\<open>False\<close>, that is, equality with
  \<open>PyBool False\<close>.
\<close>

datatype pyobject = PyBool bool | NumpyBool bool

fun truth :: "pyobject \<Rightarrow> bool" where
  "truth (PyBool b) = b"
| "truth (NumpyBool b) = b"

record 'v Parameter =
  check_in_domain :: "'v \<Rightarrow> pyobject"

record ('v, 'a, 'g) ParameterSpace =
  parameter_names :: "string list"
  get_parameter_by_name :: "string \<Rightarrow> 'v Parameter"
  convert_to_gpyopt_design_space :: 'g
  space_round :: "'a ndarray \<Rightarrow> 'a ndarray"

text \<open>A context manager records the three arguments of its constructor.\<close>

record ('v, 'a, 'g) ContextManager =
  cm_space :: "('v, 'a, 'g) ParameterSpace"
  cm_context :: "'v Context"
  cm_gpyopt_space :: 'g

text \<open>
  The object store: the two fields of the optimizer instance, \<^verbatim>\<open>self.space\<close> and
  \<^verbatim>\<open>self.gpyopt_space\<close>, and everything else that is mutable (\<open>rest\<close>: the fields of
  a subclass, the internals of the acquisition).
\<close>

record ('v, 'a, 'g, 's) store =
  space :: "('v, 'a, 'g) ParameterSpace"
  gpyopt_space :: 'g
  rest :: 's

text \<open>
  An acquisition is its method \<^verbatim>\<open>evaluate\<close>, which reads and may change the store
  \<open>'h\<close>.
\<close>

record ('a, 'y, 'h) Acquisition =
  evaluate :: "'a ndarray \<Rightarrow> 'h \<Rightarrow> 'y \<times> 'h"

text \<open>
  The abstract method \<^verbatim>\<open>_optimize\<close> of a concrete optimizer: it returns a location
  and a value, or raises an exception \<open>'e\<close>, and may change the store.
\<close>

type_synonym ('v, 'a, 'g, 's, 'y, 'e) optimize_hook =
  "('a, 'y, ('v, 'a, 'g, 's) store) Acquisition \<Rightarrow> ('v, 'a, 'g) ContextManager \<Rightarrow>
   ('v, 'a, 'g, 's) store \<Rightarrow> ('e + 'a ndarray \<times> 'y) \<times> ('v, 'a, 'g, 's) store"

text \<open>
  The exceptions that leave \<^verbatim>\<open>optimize\<close>: the \<^verbatim>\<open>ValueError\<close> of the context
  validation, with its message, and an exception raised by \<^verbatim>\<open>_optimize\<close>.
\<close>

datatype 'e exn = ValueError string | HookRaised 'e

text \<open>
  What the methods of the base class do, in order: the calls of the logger (level,
  message, further arguments), the construction of the context manager, and the calls of
  \<^verbatim>\<open>_optimize\<close>, \<^verbatim>\<open>space.round\<close> and \<^verbatim>\<open>acquisition.evaluate\<close>. A call of the logger
  is recorded with the arguments that it is given; the text of the record is made from
  them later (\<open>getMessage\<close> below), and that can fail.
\<close>

datatype level = WARNING | INFO

datatype ('v, 'a, 'g) action =
  Log level string "string list"
  | New_ContextManager "('v, 'a, 'g) ContextManager"
  | Call_optimize "('v, 'a, 'g) ContextManager"
  | Call_round "'a ndarray"
  | Call_evaluate "'a ndarray"

subsection \<open>The class\<close>

text \<open>\<^verbatim>\<open>__init__\<close>: both fields are written, the second from the first.\<close>

definition init :: "('v, 'a, 'g) ParameterSpace \<Rightarrow> 's \<Rightarrow> ('v, 'a, 'g, 's) store" where
  "init sp r = \<lparr>space = sp, gpyopt_space = convert_to_gpyopt_design_space sp, rest = r\<rparr>"

text \<open>
  \<^verbatim>\<open>np.array_equal\<close>: equal shapes, and every pair of entries compares equal under the
  comparison \<open>eq\<close> of the entries (\<^verbatim>\<open>==\<close>, under which a NaN differs from itself).
\<close>

definition array_equal :: "('a \<Rightarrow> 'a \<Rightarrow> bool) \<Rightarrow> 'a ndarray \<Rightarrow> 'a ndarray \<Rightarrow> bool" where
  "array_equal eq a1 a2 =
     (if shape a1 \<noteq> shape a2 then False else list_all2 eq (data a1) (data a2))"

text \<open>
  \<^verbatim>\<open>LogRecord.getMessage\<close> of the logging module, by which a handler makes the text of
  a record: the message itself when the call had no further arguments, and
  \<^verbatim>\<open>msg % args\<close> otherwise. For a message without the character \<open>%\<close> the operator raises
  \<^verbatim>\<open>TypeError\<close>, since no argument is converted; for the other messages the operator is
  the parameter \<open>percent\<close>.
\<close>

datatype rendering = Rendered string | TypeError string

definition getMessage ::
  "(string \<Rightarrow> string list \<Rightarrow> rendering) \<Rightarrow> string \<Rightarrow> string list \<Rightarrow> rendering" where
  "getMessage percent msg args =
     (if args = [] then Rendered msg
      else if CHR ''%'' \<in> set msg then percent msg args
      else TypeError ''not all arguments converted during string formatting'')"

text \<open>
  The body of the loop of \<^verbatim>\<open>_validate_context_parameters\<close> after the check of the
  name: one call of the logger, a warning when the result of \<^verbatim>\<open>check_in_domain\<close> is the
  object \<^verbatim>\<open>False\<close> and an information otherwise, also when the result is another object
  whose truth value is false. The call of \<^verbatim>\<open>warning\<close> is recorded as the source makes
  it: the message ends with the value, and the last string is passed as a further
  argument of the logger.
\<close>

definition domain_log ::
  "('v \<Rightarrow> string) \<Rightarrow> ('v, 'a, 'g) ParameterSpace \<Rightarrow> string \<Rightarrow> 'v \<Rightarrow> ('v, 'a, 'g) action" where
  "domain_log str sp context_name context_value =
     (let param = get_parameter_by_name sp context_name
      in if check_in_domain param context_value = PyBool False
         then Log WARNING (context_name @ '' with value '' @ str context_value)
                ['' is out of the domain'']
         else Log INFO (''Parameter '' @ context_name @ '' fixed to '' @ str context_value) [])"

text \<open>
  \<^verbatim>\<open>_validate_context_parameters\<close>: the loop over the items of the context. It returns
  the exception, if one is raised, and the calls of the logger made until then.
\<close>

fun validate_context_parameters ::
  "('v \<Rightarrow> string) \<Rightarrow> ('v, 'a, 'g) ParameterSpace \<Rightarrow> 'v Context \<Rightarrow>
   ('e exn + unit) \<times> ('v, 'a, 'g) action list" where
  "validate_context_parameters str sp [] = (Inr (), [])"
| "validate_context_parameters str sp ((context_name, context_value) # items) =
     (if context_name \<notin> set (parameter_names sp)
      then (Inl (ValueError (context_name @
              '' appears as variable in context but not in the parameter space.'')), [])
      else (case validate_context_parameters str sp items of
              (r, logs) \<Rightarrow> (r, domain_log str sp context_name context_value # logs)))"

text \<open>
  \<^verbatim>\<open>optimize\<close>. The result is the exception or the pair returned, the store after the
  call, and the actions of the base class in order. \<^verbatim>\<open>self.space\<close> is read again
  after \<^verbatim>\<open>_optimize\<close> has returned.
\<close>

definition optimize ::
  "('v \<Rightarrow> string) \<Rightarrow> ('a \<Rightarrow> 'a \<Rightarrow> bool) \<Rightarrow> ('v, 'a, 'g, 's, 'y, 'e) optimize_hook \<Rightarrow>
   ('a, 'y, ('v, 'a, 'g, 's) store) Acquisition \<Rightarrow> 'v Context option \<Rightarrow>
   ('v, 'a, 'g, 's) store \<Rightarrow>
   ('e exn + 'a ndarray \<times> 'y) \<times> ('v, 'a, 'g, 's) store \<times> ('v, 'a, 'g) action list" where
  "optimize str eq hook acquisition context h =
     (case (case context of
              None \<Rightarrow> (Inr [], [])
            | Some c \<Rightarrow>
                (case validate_context_parameters str (space h) c of
                   (Inl e, logs) \<Rightarrow> (Inl e, logs)
                 | (Inr u, logs) \<Rightarrow> (Inr c, logs))) of
        (Inl e, logs) \<Rightarrow> (Inl e, h, logs)
      | (Inr c, logs) \<Rightarrow>
          (let context_manager =
                 \<lparr>cm_space = space h, cm_context = c, cm_gpyopt_space = gpyopt_space h\<rparr>
           in case hook acquisition context_manager h of
                (Inl e, h1) \<Rightarrow>
                  (Inl (HookRaised e), h1,
                   logs @ [New_ContextManager context_manager, Call_optimize context_manager])
              | (Inr (max_x, max_value), h1) \<Rightarrow>
                  (let rounded_max_x = space_round (space h1) max_x
                   in if \<not> array_equal eq max_x rounded_max_x
                      then (case evaluate acquisition rounded_max_x h1 of
                              (value, h2) \<Rightarrow>
                                (Inr (rounded_max_x, value), h2,
                                 logs @ [New_ContextManager context_manager,
                                         Call_optimize context_manager, Call_round max_x,
                                         Call_evaluate rounded_max_x]))
                      else (Inr (max_x, max_value), h1,
                            logs @ [New_ContextManager context_manager,
                                    Call_optimize context_manager, Call_round max_x]))))"

subsection \<open>Notions used in the statements\<close>

text \<open>
  Lines 57 and 58 of \<^verbatim>\<open>optimize\<close>: an absent context stands for the empty dict.
\<close>

definition context_items :: "'v Context option \<Rightarrow> 'v Context" where
  "context_items context = (case context of None \<Rightarrow> [] | Some c \<Rightarrow> c)"

text \<open>The context manager that \<^verbatim>\<open>optimize\<close> constructs in line 61.\<close>

definition context_manager_of ::
  "('v, 'a, 'g, 's) store \<Rightarrow> 'v Context option \<Rightarrow> ('v, 'a, 'g) ContextManager" where
  "context_manager_of h context =
     \<lparr>cm_space = space h, cm_context = context_items context,
      cm_gpyopt_space = gpyopt_space h\<rparr>"

text \<open>The names of a context, in its order, that are not parameters of the space.\<close>

definition unknown_names :: "('v, 'a, 'g) ParameterSpace \<Rightarrow> 'v Context \<Rightarrow> string list" where
  "unknown_names sp c = filter (\<lambda>n. n \<notin> set (parameter_names sp)) (map fst c)"

text \<open>The calls of the logger that the validation makes for the items of a context.\<close>

definition domain_logs ::
  "('v \<Rightarrow> string) \<Rightarrow> ('v, 'a, 'g) ParameterSpace \<Rightarrow> 'v Context \<Rightarrow> ('v, 'a, 'g) action list" where
  "domain_logs str sp c = map (\<lambda>(n, v). domain_log str sp n v) c"

fun is_Log :: "('v, 'a, 'g) action \<Rightarrow> bool" where
  "is_Log (Log l m args) = True"
| "is_Log a = False"

text \<open>
  Two stores agree on the fields of the optimizer instance.
\<close>

definition same_fields :: "('v, 'a, 'g, 's) store \<Rightarrow> ('v, 'a, 'g, 's) store \<Rightarrow> bool" where
  "same_fields h h' = (space h' = space h \<and> gpyopt_space h' = gpyopt_space h)"

text \<open>
  A client that calls \<^verbatim>\<open>optimize\<close> on the same instance several times, each time
  with its own acquisition and context; the result is the store after the last call.
\<close>

fun optimize_calls ::
  "('v \<Rightarrow> string) \<Rightarrow> ('a \<Rightarrow> 'a \<Rightarrow> bool) \<Rightarrow> ('v, 'a, 'g, 's, 'y, 'e) optimize_hook \<Rightarrow>
   (('a, 'y, ('v, 'a, 'g, 's) store) Acquisition \<times> 'v Context option) list \<Rightarrow>
   ('v, 'a, 'g, 's) store \<Rightarrow> ('v, 'a, 'g, 's) store" where
  "optimize_calls str eq hook [] h = h"
| "optimize_calls str eq hook ((acquisition, context) # calls) h =
     optimize_calls str eq hook calls (fst (snd (optimize str eq hook acquisition context h)))"

text \<open>
  Modelled from the spec: \<^verbatim>\<open>ParameterSpace.round\<close> is not part of the file. The spec
  says that it snaps a vector to the nearest valid encoded point of the design space and
  that the valid encodings are the fixed points of the rounding: whatever it returns is
  left unchanged when it is rounded again.
\<close>

definition rounds_to_valid_encodings ::
  "('a \<Rightarrow> 'a \<Rightarrow> bool) \<Rightarrow> ('v, 'a, 'g) ParameterSpace \<Rightarrow> bool" where
  "rounds_to_valid_encodings eq sp =
     (\<forall>x. array_equal eq (space_round sp x) (space_round sp (space_round sp x)))"

subsection \<open>A concrete optimizer\<close>

text \<open>A single point of dimension \<open>length xs\<close>, as an array of one row.\<close>

definition point :: "'a list \<Rightarrow> 'a ndarray" where
  "point xs = \<lparr>shape = [1, length xs], data = xs\<rparr>"

text \<open>
  One parameter \<open>x\<close> with the domain from 0 to 100 and a grid of spacing 10; the rounding
  takes every entry to the nearest point of the grid. The rest of the store counts the
  evaluations of the acquisition, whose value depends on that count.
\<close>

definition example_space :: "(int, int, nat) ParameterSpace" where
  "example_space =
     \<lparr>parameter_names = [''x''],
      get_parameter_by_name =
        (\<lambda>name. \<lparr>check_in_domain = (\<lambda>v. PyBool (0 \<le> v \<and> v \<le> 100))\<rparr>),
      convert_to_gpyopt_design_space = 1,
      space_round = (\<lambda>x. x\<lparr>data := map (\<lambda>v. (v + 5) div 10 * 10) (data x)\<rparr>)\<rparr>"

definition example_store :: "(int, int, nat, nat) store" where
  "example_store = init example_space 0"

text \<open>
  The same space and instance, except that the domain check is made with numpy and
  returns a \<^verbatim>\<open>numpy.bool_\<close>.
\<close>

definition numpy_space :: "(int, int, nat) ParameterSpace" where
  "numpy_space =
     example_space\<lparr>get_parameter_by_name :=
        (\<lambda>name. \<lparr>check_in_domain = (\<lambda>v. NumpyBool (0 \<le> v \<and> v \<le> 100))\<rparr>)\<rparr>"

definition numpy_store :: "(int, int, nat, nat) store" where
  "numpy_store = init numpy_space 0"

definition example_acquisition :: "(int, int, (int, int, nat, nat) store) Acquisition" where
  "example_acquisition =
     \<lparr>evaluate = (\<lambda>x h. (sum_list (data x) + int (rest h), h\<lparr>rest := Suc (rest h)\<rparr>))\<rparr>"

definition example_str :: "int \<Rightarrow> string" where
  "example_str v = (if v = 30 then ''30'' else if v = 250 then ''250'' else ''?'')"

text \<open>
  Three implementations of \<^verbatim>\<open>_optimize\<close>: the first two evaluate the acquisition at
  the location that they return, off the grid and on the grid; the third one raises.
\<close>

definition hook_off_grid :: "(int, int, nat, nat, int, string) optimize_hook" where
  "hook_off_grid acquisition cm h =
     (case evaluate acquisition (point [34]) h of (v, h') \<Rightarrow> (Inr (point [34], v), h'))"

definition hook_on_grid :: "(int, int, nat, nat, int, string) optimize_hook" where
  "hook_on_grid acquisition cm h =
     (case evaluate acquisition (point [30]) h of (v, h') \<Rightarrow> (Inr (point [30], v), h'))"

definition hook_raises :: "(int, int, nat, nat, int, string) optimize_hook" where
  "hook_raises acquisition cm h = (Inl ''no maximum found'', h)"

text \<open>
  Three contexts: a value of the domain, a value outside of it, and a context whose
  second and third names are no parameters of the space.
\<close>

definition context_in_domain :: "int Context option" where
  "context_in_domain = Some [(''x'', 30)]"

definition context_out_of_domain :: "int Context option" where
  "context_out_of_domain = Some [(''x'', 250)]"

definition context_unknown_name :: "int Context option" where
  "context_unknown_name = Some [(''x'', 250), (''y'', 30), (''z'', 30)]"

section \<open>Auxiliary facts\<close>

subsection \<open>The validation of a context\<close>

lemma is_Log_domain_log: "is_Log (domain_log str sp n v)"
  by (simp add: domain_log_def Let_def)

lemma domain_logs_is_Log: "a \<in> set (domain_logs str sp c) \<Longrightarrow> is_Log a"
  by (auto simp: domain_logs_def is_Log_domain_log)

lemma unknown_names_Nil_iff:
  "unknown_names sp c = [] \<longleftrightarrow> fst ` set c \<subseteq> set (parameter_names sp)"
  by (auto simp: unknown_names_def filter_empty_conv)

lemma validate_accepts:
  "unknown_names sp c = [] \<Longrightarrow>
   validate_context_parameters str sp c = (Inr (), domain_logs str sp c)"
  by (induction c) (auto simp: unknown_names_def domain_logs_def split: if_splits)

lemma validate_rejects:
  "unknown_names sp pre = [] \<Longrightarrow> n \<notin> set (parameter_names sp) \<Longrightarrow>
   validate_context_parameters str sp (pre @ (n, v) # post) =
     (Inl (ValueError (n @ '' appears as variable in context but not in the parameter space.'')),
      domain_logs str sp pre)"
  by (induction pre) (auto simp: unknown_names_def domain_logs_def split: if_splits)

lemma unknown_names_split:
  "unknown_names sp c \<noteq> [] \<Longrightarrow>
   \<exists>pre n v post. c = pre @ (n, v) # post \<and> unknown_names sp pre = [] \<and>
     n \<notin> set (parameter_names sp)"
proof (induction c)
  case Nil
  then show ?case by (simp add: unknown_names_def)
next
  case (Cons a c)
  obtain m w where a: "a = (m, w)" by (cases a)
  show ?case
  proof (cases "m \<in> set (parameter_names sp)")
    case False
    have "a # c = [] @ (m, w) # c \<and> unknown_names sp [] = [] \<and> m \<notin> set (parameter_names sp)"
      using a False by (simp add: unknown_names_def)
    then show ?thesis by blast
  next
    case True
    with Cons.prems a have "unknown_names sp c \<noteq> []"
      by (simp add: unknown_names_def)
    from Cons.IH [OF this] obtain pre n v post where
      c: "c = pre @ (n, v) # post" and pre: "unknown_names sp pre = []"
      and n: "n \<notin> set (parameter_names sp)"
      by blast
    have "a # c = (a # pre) @ (n, v) # post \<and> unknown_names sp (a # pre) = [] \<and>
          n \<notin> set (parameter_names sp)"
      using c pre n a True by (simp add: unknown_names_def)
    then show ?thesis by blast
  qed
qed

subsection \<open>The paths through optimize\<close>

lemma optimize_None:
  "optimize str eq hook acquisition None h = optimize str eq hook acquisition (Some []) h"
  by (simp add: optimize_def)

lemma optimize_rejected:
  assumes "validate_context_parameters str (space h) c = (Inl e, logs)"
  shows "optimize str eq hook acquisition (Some c) h = (Inl e, h, logs)"
  using assms by (simp add: optimize_def)

lemma optimize_hook_raised:
  assumes "unknown_names (space h) (context_items ctx) = []"
    and "hook acquisition (context_manager_of h ctx) h = (Inl e, h1)"
  shows "optimize str eq hook acquisition ctx h =
     (Inl (HookRaised e), h1,
      domain_logs str (space h) (context_items ctx) @
      [New_ContextManager (context_manager_of h ctx),
       Call_optimize (context_manager_of h ctx)])"
  using assms
  by (cases ctx)
    (simp_all add: optimize_def Let_def context_items_def context_manager_of_def
      validate_accepts domain_logs_def)

lemma optimize_off_grid:
  assumes "unknown_names (space h) (context_items ctx) = []"
    and "hook acquisition (context_manager_of h ctx) h = (Inr (max_x, max_value), h1)"
    and "\<not> array_equal eq max_x (space_round (space h1) max_x)"
  shows "optimize str eq hook acquisition ctx h =
     (Inr (space_round (space h1) max_x,
           fst (evaluate acquisition (space_round (space h1) max_x) h1)),
      snd (evaluate acquisition (space_round (space h1) max_x) h1),
      domain_logs str (space h) (context_items ctx) @
      [New_ContextManager (context_manager_of h ctx),
       Call_optimize (context_manager_of h ctx), Call_round max_x,
       Call_evaluate (space_round (space h1) max_x)])"
  using assms
  by (cases ctx)
    (simp_all add: optimize_def Let_def context_items_def context_manager_of_def
      validate_accepts domain_logs_def split: prod.splits)

lemma optimize_on_grid:
  assumes "unknown_names (space h) (context_items ctx) = []"
    and "hook acquisition (context_manager_of h ctx) h = (Inr (max_x, max_value), h1)"
    and "array_equal eq max_x (space_round (space h1) max_x)"
  shows "optimize str eq hook acquisition ctx h =
     (Inr (max_x, max_value), h1,
      domain_logs str (space h) (context_items ctx) @
      [New_ContextManager (context_manager_of h ctx),
       Call_optimize (context_manager_of h ctx), Call_round max_x])"
  using assms
  by (cases ctx)
    (simp_all add: optimize_def Let_def context_items_def context_manager_of_def
      validate_accepts domain_logs_def)

text \<open>Every call of \<^verbatim>\<open>optimize\<close> takes one of four paths.\<close>

lemma optimize_cases:
  fixes h :: "('v, 'a, 'g, 's) store"
    and hook :: "('v, 'a, 'g, 's, 'y, 'e) optimize_hook"
  obtains
    (rejected) pre n v post where
      "context_items ctx = pre @ (n, v) # post"
      "unknown_names (space h) pre = []"
      "n \<notin> set (parameter_names (space h))"
      "optimize str eq hook acquisition ctx h =
         (Inl (ValueError
            (n @ '' appears as variable in context but not in the parameter space.'')),
          h, domain_logs str (space h) pre)"
  | (raised) e h1 where
      "unknown_names (space h) (context_items ctx) = []"
      "hook acquisition (context_manager_of h ctx) h = (Inl e, h1)"
      "optimize str eq hook acquisition ctx h =
         (Inl (HookRaised e), h1,
          domain_logs str (space h) (context_items ctx) @
          [New_ContextManager (context_manager_of h ctx),
           Call_optimize (context_manager_of h ctx)])"
  | (off_grid) max_x max_value h1 where
      "unknown_names (space h) (context_items ctx) = []"
      "hook acquisition (context_manager_of h ctx) h = (Inr (max_x, max_value), h1)"
      "\<not> array_equal eq max_x (space_round (space h1) max_x)"
      "optimize str eq hook acquisition ctx h =
         (Inr (space_round (space h1) max_x,
               fst (evaluate acquisition (space_round (space h1) max_x) h1)),
          snd (evaluate acquisition (space_round (space h1) max_x) h1),
          domain_logs str (space h) (context_items ctx) @
          [New_ContextManager (context_manager_of h ctx),
           Call_optimize (context_manager_of h ctx), Call_round max_x,
           Call_evaluate (space_round (space h1) max_x)])"
  | (on_grid) max_x max_value h1 where
      "unknown_names (space h) (context_items ctx) = []"
      "hook acquisition (context_manager_of h ctx) h = (Inr (max_x, max_value), h1)"
      "array_equal eq max_x (space_round (space h1) max_x)"
      "optimize str eq hook acquisition ctx h =
         (Inr (max_x, max_value), h1,
          domain_logs str (space h) (context_items ctx) @
          [New_ContextManager (context_manager_of h ctx),
           Call_optimize (context_manager_of h ctx), Call_round max_x])"
proof (cases "unknown_names (space h) (context_items ctx) = []")
  case False
  then obtain c where ctx: "ctx = Some c"
    by (cases ctx) (simp_all add: context_items_def unknown_names_def)
  with False have "unknown_names (space h) c \<noteq> []"
    by (simp add: context_items_def)
  from unknown_names_split [OF this] obtain pre n v post where
    c: "c = pre @ (n, v) # post" and pre: "unknown_names (space h) pre = []"
    and n: "n \<notin> set (parameter_names (space h))"
    by blast
  have "optimize str eq hook acquisition ctx h =
         (Inl (ValueError
            (n @ '' appears as variable in context but not in the parameter space.'')),
          h, domain_logs str (space h) pre)"
    unfolding ctx c by (rule optimize_rejected [OF validate_rejects [OF pre n]])
  moreover have "context_items ctx = pre @ (n, v) # post"
    using ctx c by (simp add: context_items_def)
  ultimately show thesis
    using pre n by (rule rejected [rotated -1])
next
  case True
  obtain r h1 where hk: "hook acquisition (context_manager_of h ctx) h = (r, h1)"
    by (cases "hook acquisition (context_manager_of h ctx) h")
  show thesis
  proof (cases r)
    case (Inl e)
    with hk have "hook acquisition (context_manager_of h ctx) h = (Inl e, h1)"
      by simp
    from True this
      optimize_hook_raised [where hook = hook and acquisition = acquisition, OF True this]
    show thesis
      by (rule raised)
  next
    case (Inr p)
    obtain max_x max_value where "p = (max_x, max_value)"
      by (cases p)
    with hk Inr have
      ret: "hook acquisition (context_manager_of h ctx) h = (Inr (max_x, max_value), h1)"
      by simp
    show thesis
    proof (cases "array_equal eq max_x (space_round (space h1) max_x)")
      case True
      from \<open>unknown_names (space h) (context_items ctx) = []\<close> ret True
        optimize_on_grid [where hook = hook and acquisition = acquisition,
          OF \<open>unknown_names (space h) (context_items ctx) = []\<close> ret True]
      show thesis
        by (rule on_grid)
    next
      case False
      from \<open>unknown_names (space h) (context_items ctx) = []\<close> ret False
        optimize_off_grid [where hook = hook and acquisition = acquisition,
          OF \<open>unknown_names (space h) (context_items ctx) = []\<close> ret False]
      show thesis
        by (rule off_grid)
    qed
  qed
qed

subsection \<open>The store\<close>

lemma same_fields_refl: "same_fields h h"
  by (simp add: same_fields_def)

lemma same_fields_trans: "same_fields a b \<Longrightarrow> same_fields b c \<Longrightarrow> same_fields a c"
  by (simp add: same_fields_def)

text \<open>
  \<^verbatim>\<open>optimize\<close> writes nothing itself: the store that it leaves is the initial one, the one
  left by the hook, or the one left by the evaluation of the rounded location.
\<close>

lemma optimize_store:
  "fst (snd (optimize str eq hook acquisition ctx h)) = h \<or>
   fst (snd (optimize str eq hook acquisition ctx h)) =
     snd (hook acquisition (context_manager_of h ctx) h) \<or>
   (\<exists>x. fst (snd (optimize str eq hook acquisition ctx h)) =
     snd (evaluate acquisition x (snd (hook acquisition (context_manager_of h ctx) h))))"
proof (cases rule: optimize_cases
    [where h = h and ctx = ctx and str = str and eq = eq and hook = hook
      and acquisition = acquisition])
  case (rejected pre n v post)
  then show ?thesis by simp
next
  case (raised e h1)
  then show ?thesis by simp
next
  case (off_grid max_x max_value h1)
  then have "fst (snd (optimize str eq hook acquisition ctx h)) =
     snd (evaluate acquisition (space_round (space h1) max_x)
       (snd (hook acquisition (context_manager_of h ctx) h)))"
    by simp
  then show ?thesis by blast
next
  case (on_grid max_x max_value h1)
  then show ?thesis by simp
qed

lemma optimize_same_fields:
  assumes "\<forall>cm h'. same_fields h' (snd (hook acquisition cm h'))"
    and "\<forall>x h'. same_fields h' (snd (evaluate acquisition x h'))"
  shows "same_fields h (fst (snd (optimize str eq hook acquisition ctx h)))"
proof -
  have hk: "same_fields h (snd (hook acquisition (context_manager_of h ctx) h))"
    using assms(1) by blast
  have ev: "same_fields h
      (snd (evaluate acquisition x (snd (hook acquisition (context_manager_of h ctx) h))))"
    for x
    using hk assms(2) same_fields_trans by blast
  from optimize_store [of str eq hook acquisition ctx h] hk ev same_fields_refl [of h]
  show ?thesis by auto
qed

lemma optimize_calls_same_fields:
  assumes "\<forall>call \<in> set calls. \<forall>cm h'. same_fields h' (snd (hook (fst call) cm h'))"
    and "\<forall>call \<in> set calls. \<forall>x h'. same_fields h' (snd (evaluate (fst call) x h'))"
  shows "same_fields h (optimize_calls str eq hook calls h)"
  using assms
proof (induction calls arbitrary: h)
  case Nil
  show ?case by (simp add: same_fields_refl)
next
  case (Cons call calls)
  obtain acquisition ctx where call: "call = (acquisition, ctx)"
    by (cases call)
  have step: "same_fields h (fst (snd (optimize str eq hook acquisition ctx h)))"
    using Cons.prems call by (intro optimize_same_fields) auto
  have "same_fields (fst (snd (optimize str eq hook acquisition ctx h)))
      (optimize_calls str eq hook calls (fst (snd (optimize str eq hook acquisition ctx h))))"
    using Cons.prems by (intro Cons.IH) auto
  with step show ?case
    using call same_fields_trans by auto
qed

section \<open>The claims\<close>

lemmas example_defs =
  example_space_def example_store_def example_acquisition_def example_str_def
  hook_off_grid_def hook_on_grid_def hook_raises_def context_in_domain_def
  context_out_of_domain_def context_unknown_name_def init_def context_items_def
  context_manager_of_def array_equal_def point_def

subsection \<open>The rounding of the location\<close>

text \<open>
  Claim C1. Whenever the validation of the context lets the call through, the hook
  returns a location \<open>max_x\<close> with some value \<open>max_value\<close>, and \<open>max_x\<close> differs from its
  rounding under \<^verbatim>\<open>np.array_equal\<close>, \<^verbatim>\<open>optimize\<close> returns the rounded location
  together with the value of \<^verbatim>\<open>acquisition.evaluate\<close> at the rounded location, in the
  store that the hook has left. The value \<open>max_value\<close> reported by the hook does not
  occur in the result.
\<close>

theorem optimize_reevaluates_rounded_location:
  assumes "fst ` set (context_items ctx) \<subseteq> set (parameter_names (space h))"
    and "hook acquisition (context_manager_of h ctx) h = (Inr (max_x, max_value), h1)"
    and "\<not> array_equal eq max_x (space_round (space h1) max_x)"
  shows "fst (optimize str eq hook acquisition ctx h) =
     Inr (space_round (space h1) max_x,
          fst (evaluate acquisition (space_round (space h1) max_x) h1))"
proof -
  from assms(1) have known: "unknown_names (space h) (context_items ctx) = []"
    by (simp add: unknown_names_Nil_iff)
  from optimize_off_grid [where hook = hook and acquisition = acquisition,
      OF known assms(2) assms(3)]
  show ?thesis by simp
qed

theorem optimize_reevaluates_rounded_location_witness:
  "fst ` set (context_items context_in_domain) \<subseteq> set (parameter_names (space example_store)) \<and>
   hook_off_grid example_acquisition (context_manager_of example_store context_in_domain)
     example_store = (Inr (point [34], 34), example_store\<lparr>rest := 1\<rparr>) \<and>
   \<not> array_equal (=) (point [34]) (space_round (space (example_store\<lparr>rest := 1\<rparr>)) (point [34])) \<and>
   fst (optimize example_str (=) hook_off_grid example_acquisition context_in_domain
          example_store) = Inr (point [30], 31)"
proof -
  have a: "fst ` set (context_items context_in_domain) \<subseteq>
      set (parameter_names (space example_store))"
    by (simp add: example_defs)
  have b: "hook_off_grid example_acquisition
      (context_manager_of example_store context_in_domain) example_store =
      (Inr (point [34], 34), example_store\<lparr>rest := 1\<rparr>)"
    by (simp add: example_defs)
  have c: "\<not> array_equal (=) (point [34]) (space_round (space (example_store\<lparr>rest := 1\<rparr>)) (point [34]))"
    by (simp add: example_defs)
  from optimize_reevaluates_rounded_location
    [where hook = hook_off_grid and acquisition = example_acquisition and str = example_str,
      OF a b c]
  have "fst (optimize example_str (=) hook_off_grid example_acquisition context_in_domain
          example_store) = Inr (point [30], 31)"
    by (simp add: example_defs)
  with a b c show ?thesis by simp
qed

text \<open>
  Claim C2. Whenever the validation lets the call through and the hook returns a
  location that \<^verbatim>\<open>np.array_equal\<close> finds equal to its rounding, \<^verbatim>\<open>optimize\<close> returns
  the location and the value of the hook as they are, the store is the one that the hook
  has left, and the base class has not called \<^verbatim>\<open>acquisition.evaluate\<close>.
\<close>

theorem optimize_keeps_hook_value_on_grid:
  assumes "fst ` set (context_items ctx) \<subseteq> set (parameter_names (space h))"
    and "hook acquisition (context_manager_of h ctx) h = (Inr (max_x, max_value), h1)"
    and "array_equal eq max_x (space_round (space h1) max_x)"
  shows "fst (optimize str eq hook acquisition ctx h) = Inr (max_x, max_value) \<and>
     fst (snd (optimize str eq hook acquisition ctx h)) = h1 \<and>
     (\<forall>x. Call_evaluate x \<notin> set (snd (snd (optimize str eq hook acquisition ctx h))))"
proof -
  from assms(1) have known: "unknown_names (space h) (context_items ctx) = []"
    by (simp add: unknown_names_Nil_iff)
  have eq: "optimize str eq hook acquisition ctx h =
     (Inr (max_x, max_value), h1,
      domain_logs str (space h) (context_items ctx) @
      [New_ContextManager (context_manager_of h ctx),
       Call_optimize (context_manager_of h ctx), Call_round max_x])"
    using known assms(2) assms(3) by (rule optimize_on_grid)
  have "Call_evaluate x \<notin> set (domain_logs str (space h) (context_items ctx))" for x
    using domain_logs_is_Log [of "Call_evaluate x" str "space h" "context_items ctx"]
    by auto
  with eq show ?thesis by simp
qed

theorem optimize_keeps_hook_value_on_grid_witness:
  "fst ` set (context_items context_in_domain) \<subseteq> set (parameter_names (space example_store)) \<and>
   hook_on_grid example_acquisition (context_manager_of example_store context_in_domain)
     example_store = (Inr (point [30], 30), example_store\<lparr>rest := 1\<rparr>) \<and>
   array_equal (=) (point [30]) (space_round (space (example_store\<lparr>rest := 1\<rparr>)) (point [30])) \<and>
   fst (optimize example_str (=) hook_on_grid example_acquisition context_in_domain
          example_store) = Inr (point [30], 30) \<and>
   fst (snd (optimize example_str (=) hook_on_grid example_acquisition context_in_domain
          example_store)) = example_store\<lparr>rest := 1\<rparr> \<and>
   Call_evaluate (point [30]) \<notin> set (snd (snd (optimize example_str (=) hook_on_grid
          example_acquisition context_in_domain example_store)))"
proof -
  have a: "fst ` set (context_items context_in_domain) \<subseteq>
      set (parameter_names (space example_store))"
    by (simp add: example_defs)
  have b: "hook_on_grid example_acquisition
      (context_manager_of example_store context_in_domain) example_store =
      (Inr (point [30], 30), example_store\<lparr>rest := 1\<rparr>)"
    by (simp add: example_defs)
  have c: "array_equal (=) (point [30]) (space_round (space (example_store\<lparr>rest := 1\<rparr>)) (point [30]))"
    by (simp add: example_defs)
  from optimize_keeps_hook_value_on_grid
    [where hook = hook_on_grid and acquisition = example_acquisition and str = example_str,
      OF a b c]
  show ?thesis using a b c by simp
qed

subsection \<open>The names of the context\<close>

text \<open>
  Claim C3. \<^verbatim>\<open>optimize\<close> raises the \<^verbatim>\<open>ValueError\<close> of an invalid context name if and
  only if some key of the supplied context is not among the parameter names of the space.
  When it raises that error, the hook has not been called and the store is as it was; a
  context whose keys are all parameter names never raises it.
\<close>

theorem optimize_raises_iff_unknown_name:
  "((\<exists>n. fst (optimize str eq hook acquisition ctx h) =
        Inl (ValueError
          (n @ '' appears as variable in context but not in the parameter space.''))) \<longleftrightarrow>
    (\<exists>n \<in> fst ` set (context_items ctx). n \<notin> set (parameter_names (space h)))) \<and>
   ((\<exists>msg. fst (optimize str eq hook acquisition ctx h) = Inl (ValueError msg)) \<longrightarrow>
    (\<exists>n \<in> fst ` set (context_items ctx). n \<notin> set (parameter_names (space h))) \<and>
    (\<forall>cm. Call_optimize cm \<notin> set (snd (snd (optimize str eq hook acquisition ctx h)))) \<and>
    fst (snd (optimize str eq hook acquisition ctx h)) = h)"
proof (cases rule: optimize_cases
    [where h = h and ctx = ctx and str = str and eq = eq and hook = hook
      and acquisition = acquisition])
  case (rejected pre n v post)
  have bad: "\<exists>n \<in> fst ` set (context_items ctx). n \<notin> set (parameter_names (space h))"
    using rejected(1) rejected(3) by force
  have "Call_optimize cm \<notin> set (domain_logs str (space h) pre)" for cm
    using domain_logs_is_Log [of "Call_optimize cm" str "space h" pre] by auto
  with bad rejected(4) show ?thesis by simp
next
  case (raised e h1)
  from raised(1) have "fst ` set (context_items ctx) \<subseteq> set (parameter_names (space h))"
    by (simp add: unknown_names_Nil_iff)
  then have "\<not> (\<exists>n \<in> fst ` set (context_items ctx). n \<notin> set (parameter_names (space h)))"
    by blast
  with raised(3) show ?thesis by simp
next
  case (off_grid max_x max_value h1)
  from off_grid(1) have "fst ` set (context_items ctx) \<subseteq> set (parameter_names (space h))"
    by (simp add: unknown_names_Nil_iff)
  then have "\<not> (\<exists>n \<in> fst ` set (context_items ctx). n \<notin> set (parameter_names (space h)))"
    by blast
  with off_grid(4) show ?thesis by simp
next
  case (on_grid max_x max_value h1)
  from on_grid(1) have "fst ` set (context_items ctx) \<subseteq> set (parameter_names (space h))"
    by (simp add: unknown_names_Nil_iff)
  then have "\<not> (\<exists>n \<in> fst ` set (context_items ctx). n \<notin> set (parameter_names (space h)))"
    by blast
  with on_grid(4) show ?thesis by simp
qed

theorem optimize_raises_iff_unknown_name_witness:
  "(\<exists>n \<in> fst ` set (context_items context_unknown_name).
      n \<notin> set (parameter_names (space example_store))) \<and>
   (\<exists>n. fst (optimize example_str (=) hook_off_grid example_acquisition context_unknown_name
            example_store) =
      Inl (ValueError
        (n @ '' appears as variable in context but not in the parameter space.''))) \<and>
   (\<forall>cm. Call_optimize cm \<notin> set (snd (snd (optimize example_str (=) hook_off_grid
          example_acquisition context_unknown_name example_store)))) \<and>
   fst (snd (optimize example_str (=) hook_off_grid example_acquisition context_unknown_name
          example_store)) = example_store"
proof -
  have a: "\<exists>n \<in> fst ` set (context_items context_unknown_name).
      n \<notin> set (parameter_names (space example_store))"
    by (simp add: example_defs)
  from optimize_raises_iff_unknown_name
    [where hook = hook_off_grid and acquisition = example_acquisition and str = example_str
      and eq = "(=)" and ctx = context_unknown_name and h = example_store] a
  show ?thesis by blast
qed

text \<open>
  Claim C4. Let the rounding of the space return valid encodings only, that is, fixed
  points of the rounding. Whenever \<^verbatim>\<open>optimize\<close> returns normally, the location that it
  returns is a fixed point of the rounding of the space (the space that the instance
  holds when line 66 reads it), whether the location of the hook was one or not.
\<close>

theorem optimize_returns_valid_encoding:
  assumes "rounds_to_valid_encodings eq
      (space (snd (hook acquisition (context_manager_of h ctx) h)))"
    and "fst (optimize str eq hook acquisition ctx h) = Inr (x, y)"
  shows "array_equal eq x
      (space_round (space (snd (hook acquisition (context_manager_of h ctx) h))) x)"
proof (cases rule: optimize_cases
    [where h = h and ctx = ctx and str = str and eq = eq and hook = hook
      and acquisition = acquisition])
  case (rejected pre n v post)
  with assms(2) show ?thesis by simp
next
  case (raised e h1)
  with assms(2) show ?thesis by simp
next
  case (off_grid max_x max_value h1)
  from off_grid(4) assms(2) have x: "x = space_round (space h1) max_x"
    by simp
  from assms(1) off_grid(2) have "rounds_to_valid_encodings eq (space h1)"
    by simp
  then have "array_equal eq (space_round (space h1) max_x)
      (space_round (space h1) (space_round (space h1) max_x))"
    by (simp add: rounds_to_valid_encodings_def)
  with x off_grid(2) show ?thesis by simp
next
  case (on_grid max_x max_value h1)
  from on_grid(4) assms(2) have "x = max_x"
    by simp
  with on_grid(2) on_grid(3) show ?thesis by simp
qed

lemma example_space_rounds_to_valid_encodings:
  "rounds_to_valid_encodings (=) example_space"
proof -
  have "(((v::int) + 5) div 10 * 10 + 5) div 10 * 10 = (v + 5) div 10 * 10" for v
    by simp
  then show ?thesis
    by (simp add: rounds_to_valid_encodings_def array_equal_def example_space_def
        list.rel_eq)
qed

theorem optimize_returns_valid_encoding_witness:
  "rounds_to_valid_encodings (=)
     (space (snd (hook_off_grid example_acquisition
        (context_manager_of example_store context_in_domain) example_store))) \<and>
   fst (optimize example_str (=) hook_off_grid example_acquisition context_in_domain
          example_store) = Inr (point [30], 31) \<and>
   array_equal (=) (point [30]) (space_round (space example_store) (point [30]))"
proof -
  have sp: "space (snd (hook_off_grid example_acquisition
        (context_manager_of example_store context_in_domain) example_store)) =
      space example_store"
    by (simp add: example_defs)
  have a: "rounds_to_valid_encodings (=)
     (space (snd (hook_off_grid example_acquisition
        (context_manager_of example_store context_in_domain) example_store)))"
    unfolding sp using example_space_rounds_to_valid_encodings
    by (simp add: example_store_def init_def)
  have b: "fst (optimize example_str (=) hook_off_grid example_acquisition context_in_domain
          example_store) = Inr (point [30], 31)"
    by (simp add: optimize_def Let_def example_defs)
  from optimize_returns_valid_encoding
    [where hook = hook_off_grid and acquisition = example_acquisition and str = example_str,
      OF a b]
  have "array_equal (=) (point [30]) (space_round (space example_store) (point [30]))"
    unfolding sp .
  with a b show ?thesis by simp
qed

subsection \<open>The values of the context\<close>

text \<open>
  Let every key of the context name a parameter of the space, and let the domain check of
  the entry \<open>n\<close> return the object \<^verbatim>\<open>False\<close>. Then \<^verbatim>\<open>optimize\<close> raises no
  \<^verbatim>\<open>ValueError\<close>, the only exception that can leave the call is one of the hook, the
  logger is called at the level of a warning for the entry \<open>n\<close>, and the context manager
  is constructed from the context as it was supplied.
\<close>

lemma False_result_is_warned:
  assumes "fst ` set c \<subseteq> set (parameter_names (space h))"
    and "(n, v) \<in> set c"
    and "check_in_domain (get_parameter_by_name (space h) n) v = PyBool False"
  shows "(\<forall>msg. fst (optimize str eq hook acquisition (Some c) h) \<noteq> Inl (ValueError msg)) \<and>
     (\<forall>e. fst (optimize str eq hook acquisition (Some c) h) = Inl (HookRaised e) \<longrightarrow>
        fst (hook acquisition
          \<lparr>cm_space = space h, cm_context = c, cm_gpyopt_space = gpyopt_space h\<rparr> h) = Inl e) \<and>
     ((\<exists>p. fst (hook acquisition
          \<lparr>cm_space = space h, cm_context = c, cm_gpyopt_space = gpyopt_space h\<rparr> h) = Inr p) \<longrightarrow>
      (\<exists>p. fst (optimize str eq hook acquisition (Some c) h) = Inr p)) \<and>
     Log WARNING (n @ '' with value '' @ str v) ['' is out of the domain''] \<in>
       set (snd (snd (optimize str eq hook acquisition (Some c) h))) \<and>
     (\<exists>tail. snd (snd (optimize str eq hook acquisition (Some c) h)) =
        domain_logs str (space h) c @
        New_ContextManager
          \<lparr>cm_space = space h, cm_context = c, cm_gpyopt_space = gpyopt_space h\<rparr> #
        Call_optimize
          \<lparr>cm_space = space h, cm_context = c, cm_gpyopt_space = gpyopt_space h\<rparr> # tail)"
proof -
  have cm: "context_manager_of h (Some c) =
      \<lparr>cm_space = space h, cm_context = c, cm_gpyopt_space = gpyopt_space h\<rparr>"
    by (simp add: context_manager_of_def context_items_def)
  have items: "context_items (Some c) = c"
    by (simp add: context_items_def)
  have "domain_log str (space h) n v =
      Log WARNING (n @ '' with value '' @ str v) ['' is out of the domain'']"
    using assms(3) by (simp add: domain_log_def)
  moreover have "domain_log str (space h) n v \<in> set (domain_logs str (space h) c)"
    using assms(2) by (force simp: domain_logs_def)
  ultimately have warning:
    "Log WARNING (n @ '' with value '' @ str v) ['' is out of the domain''] \<in>
      set (domain_logs str (space h) c)"
    by simp
  show ?thesis
  proof (cases rule: optimize_cases
      [where h = h and ctx = "Some c" and str = str and eq = eq and hook = hook
        and acquisition = acquisition])
    case (rejected pre m w post)
    from rejected(1) rejected(3) assms(1) have False
      by (auto simp: items)
    then show ?thesis ..
  next
    case (raised e h1)
    with warning show ?thesis by (simp add: cm items)
  next
    case (off_grid max_x max_value h1)
    with warning show ?thesis by (simp add: cm items)
  next
    case (on_grid max_x max_value h1)
    with warning show ?thesis by (simp add: cm items)
  qed
qed

text \<open>
  Claim C5. The code does not do what the claim says, and what the comment of line 28
  announces, in two ways. First, line 30 compares the result of the domain check with
  \<^verbatim>\<open>is False\<close>: when the check returns the false value of numpy, the value 250 is outside
  of the domain from 0 to 100, and yet the only call of the logger is the information
  that the parameter is fixed; no warning is made. Second, when the check returns the
  object \<^verbatim>\<open>False\<close>, line 31 calls the logger with the message \<open>x with value 250\<close> and the
  further argument \<open> is out of the domain\<close>; the message has no conversion specifier,
  so making the text of the record raises \<^verbatim>\<open>TypeError\<close>, whatever the operator does on
  other messages, and no text of a warning comes out. The call itself returns normally
  in the first case, and the context manager receives the value 250 unchanged.
\<close>

theorem out_of_domain_warning_is_lost:
  "\<not> truth (check_in_domain (get_parameter_by_name (space numpy_store) ''x'') 250) \<and>
   optimize example_str (=) hook_on_grid example_acquisition context_out_of_domain
     numpy_store =
     (Inr (point [30], 30), numpy_store\<lparr>rest := 1\<rparr>,
      [Log INFO ''Parameter x fixed to 250'' [],
       New_ContextManager
         \<lparr>cm_space = numpy_space, cm_context = [(''x'', 250)], cm_gpyopt_space = 1\<rparr>,
       Call_optimize
         \<lparr>cm_space = numpy_space, cm_context = [(''x'', 250)], cm_gpyopt_space = 1\<rparr>,
       Call_round (point [30])]) \<and>
   check_in_domain (get_parameter_by_name (space example_store) ''x'') 250 = PyBool False \<and>
   domain_log example_str (space example_store) ''x'' 250 =
     Log WARNING ''x with value 250'' ['' is out of the domain''] \<and>
   (\<forall>percent. getMessage percent ''x with value 250'' ['' is out of the domain''] =
     TypeError ''not all arguments converted during string formatting'')"
proof -
  have a: "\<not> truth (check_in_domain (get_parameter_by_name (space numpy_store) ''x'') 250)"
    by (simp add: numpy_store_def numpy_space_def example_space_def init_def)
  have b: "optimize example_str (=) hook_on_grid example_acquisition context_out_of_domain
     numpy_store =
     (Inr (point [30], 30), numpy_store\<lparr>rest := 1\<rparr>,
      [Log INFO ''Parameter x fixed to 250'' [],
       New_ContextManager
         \<lparr>cm_space = numpy_space, cm_context = [(''x'', 250)], cm_gpyopt_space = 1\<rparr>,
       Call_optimize
         \<lparr>cm_space = numpy_space, cm_context = [(''x'', 250)], cm_gpyopt_space = 1\<rparr>,
       Call_round (point [30])])"
    by (simp add: optimize_def Let_def domain_log_def numpy_store_def numpy_space_def
        example_defs)
  have c: "check_in_domain (get_parameter_by_name (space example_store) ''x'') 250 =
      PyBool False"
    by (simp add: example_defs)
  have d: "domain_log example_str (space example_store) ''x'' 250 =
     Log WARNING ''x with value 250'' ['' is out of the domain'']"
    by (simp add: domain_log_def example_defs)
  have e: "getMessage percent ''x with value 250'' ['' is out of the domain''] =
     TypeError ''not all arguments converted during string formatting''" for percent
    by (simp add: getMessage_def)
  from a b c d e show ?thesis by blast
qed

text \<open>
  Claim C6. A call of \<^verbatim>\<open>optimize\<close> without a context gives what a call with the empty
  dict gives: the same result, the same store and the same actions. It raises no
  \<^verbatim>\<open>ValueError\<close>, it does not call the logger, and the first thing it does is to
  construct the context manager with the empty context, which it hands to the hook.
\<close>

theorem optimize_without_context:
  "optimize str eq hook acquisition None h = optimize str eq hook acquisition (Some []) h \<and>
   (\<forall>msg. fst (optimize str eq hook acquisition None h) \<noteq> Inl (ValueError msg)) \<and>
   (\<forall>a \<in> set (snd (snd (optimize str eq hook acquisition None h))). \<not> is_Log a) \<and>
   (\<exists>tail. snd (snd (optimize str eq hook acquisition None h)) =
      New_ContextManager
        \<lparr>cm_space = space h, cm_context = [], cm_gpyopt_space = gpyopt_space h\<rparr> #
      Call_optimize
        \<lparr>cm_space = space h, cm_context = [], cm_gpyopt_space = gpyopt_space h\<rparr> # tail)"
proof -
  have cm: "context_manager_of h None =
      \<lparr>cm_space = space h, cm_context = [], cm_gpyopt_space = gpyopt_space h\<rparr>"
    by (simp add: context_manager_of_def context_items_def)
  have items: "context_items None = []"
    by (simp add: context_items_def)
  have same: "optimize str eq hook acquisition None h =
      optimize str eq hook acquisition (Some []) h"
    by (rule optimize_None)
  have "(\<forall>msg. fst (optimize str eq hook acquisition None h) \<noteq> Inl (ValueError msg)) \<and>
   (\<forall>a \<in> set (snd (snd (optimize str eq hook acquisition None h))). \<not> is_Log a) \<and>
   (\<exists>tail. snd (snd (optimize str eq hook acquisition None h)) =
      New_ContextManager
        \<lparr>cm_space = space h, cm_context = [], cm_gpyopt_space = gpyopt_space h\<rparr> #
      Call_optimize
        \<lparr>cm_space = space h, cm_context = [], cm_gpyopt_space = gpyopt_space h\<rparr> # tail)"
  proof (cases rule: optimize_cases
      [where h = h and ctx = None and str = str and eq = eq and hook = hook
        and acquisition = acquisition])
    case (rejected pre n v post)
    then show ?thesis by (simp add: items)
  next
    case (raised e h1)
    then show ?thesis by (simp add: cm items domain_logs_def)
  next
    case (off_grid max_x max_value h1)
    then show ?thesis by (simp add: cm items domain_logs_def)
  next
    case (on_grid max_x max_value h1)
    then show ?thesis by (simp add: cm items domain_logs_def)
  qed
  with same show ?thesis by blast
qed

theorem optimize_without_context_witness:
  "optimize example_str (=) hook_on_grid example_acquisition None example_store =
     (Inr (point [30], 30), example_store\<lparr>rest := 1\<rparr>,
      [New_ContextManager \<lparr>cm_space = example_space, cm_context = [], cm_gpyopt_space = 1\<rparr>,
       Call_optimize \<lparr>cm_space = example_space, cm_context = [], cm_gpyopt_space = 1\<rparr>,
       Call_round (point [30])]) \<and>
   optimize example_str (=) hook_on_grid example_acquisition None example_store =
     optimize example_str (=) hook_on_grid example_acquisition (Some []) example_store"
proof -
  have a: "optimize example_str (=) hook_on_grid example_acquisition None example_store =
     (Inr (point [30], 30), example_store\<lparr>rest := 1\<rparr>,
      [New_ContextManager \<lparr>cm_space = example_space, cm_context = [], cm_gpyopt_space = 1\<rparr>,
       Call_optimize \<lparr>cm_space = example_space, cm_context = [], cm_gpyopt_space = 1\<rparr>,
       Call_round (point [30])])"
    by (simp add: optimize_def Let_def example_defs)
  from optimize_without_context
    [where hook = hook_on_grid and acquisition = example_acquisition and str = example_str
      and eq = "(=)" and h = example_store]
  show ?thesis using a by blast
qed

subsection \<open>The order of the validation\<close>

text \<open>
  Claim C7. The validation goes through the items of the context in their order. As
  long as the names are parameters of the space it only calls the logger, once for every
  item, whatever the domain check says, and so a context of such names is accepted. At
  the first name \<open>n\<close> that is no parameter of the space it raises the \<^verbatim>\<open>ValueError\<close> for
  \<open>n\<close>; the items \<open>post\<close> after it are not looked at: neither the result nor the calls of
  the logger depend on them.
\<close>

theorem validation_fails_at_first_unknown_name:
  assumes "fst ` set pre \<subseteq> set (parameter_names sp)"
  shows "validate_context_parameters str sp pre = (Inr (), domain_logs str sp pre) \<and>
     length (domain_logs str sp pre) = length pre \<and>
     (\<forall>a \<in> set (domain_logs str sp pre). is_Log a) \<and>
     (n \<notin> set (parameter_names sp) \<longrightarrow>
      validate_context_parameters str sp (pre @ (n, v) # post) =
        (Inl (ValueError
           (n @ '' appears as variable in context but not in the parameter space.'')),
         domain_logs str sp pre))"
proof -
  from assms have known: "unknown_names sp pre = []"
    by (simp add: unknown_names_Nil_iff)
  have "validate_context_parameters str sp pre = (Inr (), domain_logs str sp pre)"
    using known by (rule validate_accepts)
  moreover have "length (domain_logs str sp pre) = length pre"
    by (simp add: domain_logs_def)
  moreover have "\<forall>a \<in> set (domain_logs str sp pre). is_Log a"
    using domain_logs_is_Log by blast
  moreover have "validate_context_parameters str sp (pre @ (n, v) # post) =
        (Inl (ValueError
           (n @ '' appears as variable in context but not in the parameter space.'')),
         domain_logs str sp pre)" if "n \<notin> set (parameter_names sp)"
    using known that by (rule validate_rejects)
  ultimately show ?thesis by blast
qed

theorem validation_fails_at_first_unknown_name_witness:
  "fst ` set [(''x'', 250::int)] \<subseteq> set (parameter_names example_space) \<and>
   ''y'' \<notin> set (parameter_names example_space) \<and>
   validate_context_parameters example_str example_space [(''x'', 250)] =
     (Inr (), [Log WARNING ''x with value 250'' ['' is out of the domain'']]) \<and>
   validate_context_parameters example_str example_space
       ([(''x'', 250)] @ (''y'', 30) # [(''z'', 30)]) =
     (Inl (ValueError ''y appears as variable in context but not in the parameter space.''),
      [Log WARNING ''x with value 250'' ['' is out of the domain'']])"
proof -
  have a: "fst ` set [(''x'', 250::int)] \<subseteq> set (parameter_names example_space)"
    by (simp add: example_defs)
  have b: "''y'' \<notin> set (parameter_names example_space)"
    by (simp add: example_defs)
  from validation_fails_at_first_unknown_name
    [where str = example_str and n = "''y''" and v = 30 and post = "[(''z'', 30)]", OF a] b
  show ?thesis using a
    by (simp add: example_defs domain_logs_def domain_log_def)
qed

subsection \<open>Exceptions and the store\<close>

text \<open>
  Claim C8. If the keys of the context are parameter names and the hook raises \<open>e\<close>,
  \<^verbatim>\<open>optimize\<close> raises \<open>e\<close> as it is, in the store that the hook has left; the hook has
  been called once, after the validation and the construction of the context manager, and
  nothing is done after it. If some key is no parameter name, \<^verbatim>\<open>optimize\<close> raises the
  \<^verbatim>\<open>ValueError\<close> of the validation, the hook is not called, and the store is as it was.
\<close>

theorem hook_exception_propagates:
  "(fst ` set (context_items ctx) \<subseteq> set (parameter_names (space h)) \<longrightarrow>
    hook acquisition (context_manager_of h ctx) h = (Inl e, h1) \<longrightarrow>
    optimize str eq hook acquisition ctx h =
      (Inl (HookRaised e), h1,
       domain_logs str (space h) (context_items ctx) @
       [New_ContextManager (context_manager_of h ctx),
        Call_optimize (context_manager_of h ctx)])) \<and>
   (\<not> fst ` set (context_items ctx) \<subseteq> set (parameter_names (space h)) \<longrightarrow>
    (\<exists>msg. fst (optimize str eq hook acquisition ctx h) = Inl (ValueError msg)) \<and>
    (\<forall>cm. Call_optimize cm \<notin> set (snd (snd (optimize str eq hook acquisition ctx h)))) \<and>
    fst (snd (optimize str eq hook acquisition ctx h)) = h)"
proof (intro conjI impI)
  assume "fst ` set (context_items ctx) \<subseteq> set (parameter_names (space h))"
    and hk: "hook acquisition (context_manager_of h ctx) h = (Inl e, h1)"
  then have "unknown_names (space h) (context_items ctx) = []"
    by (simp add: unknown_names_Nil_iff)
  then show "optimize str eq hook acquisition ctx h =
      (Inl (HookRaised e), h1,
       domain_logs str (space h) (context_items ctx) @
       [New_ContextManager (context_manager_of h ctx),
        Call_optimize (context_manager_of h ctx)])"
    using hk by (rule optimize_hook_raised)
next
  assume bad: "\<not> fst ` set (context_items ctx) \<subseteq> set (parameter_names (space h))"
  then have unknown: "unknown_names (space h) (context_items ctx) \<noteq> []"
    by (simp add: unknown_names_Nil_iff)
  have "(\<exists>msg. fst (optimize str eq hook acquisition ctx h) = Inl (ValueError msg)) \<and>
    (\<forall>cm. Call_optimize cm \<notin> set (snd (snd (optimize str eq hook acquisition ctx h)))) \<and>
    fst (snd (optimize str eq hook acquisition ctx h)) = h"
  proof (cases rule: optimize_cases
      [where h = h and ctx = ctx and str = str and eq = eq and hook = hook
        and acquisition = acquisition])
    case (rejected pre n v post)
    have "Call_optimize cm \<notin> set (domain_logs str (space h) pre)" for cm
      using domain_logs_is_Log [of "Call_optimize cm" str "space h" pre] by auto
    with rejected(4) show ?thesis by simp
  next
    case (raised e h1)
    with unknown show ?thesis by simp
  next
    case (off_grid max_x max_value h1)
    with unknown show ?thesis by simp
  next
    case (on_grid max_x max_value h1)
    with unknown show ?thesis by simp
  qed
  then show "\<exists>msg. fst (optimize str eq hook acquisition ctx h) = Inl (ValueError msg)"
    and "\<forall>cm. Call_optimize cm \<notin> set (snd (snd (optimize str eq hook acquisition ctx h)))"
    and "fst (snd (optimize str eq hook acquisition ctx h)) = h"
    by blast+
qed

theorem hook_exception_propagates_witness:
  "fst ` set (context_items context_in_domain) \<subseteq> set (parameter_names (space example_store)) \<and>
   hook_raises example_acquisition (context_manager_of example_store context_in_domain)
     example_store = (Inl ''no maximum found'', example_store) \<and>
   optimize example_str (=) hook_raises example_acquisition context_in_domain example_store =
     (Inl (HookRaised ''no maximum found''), example_store,
      [Log INFO ''Parameter x fixed to 30'' [],
       New_ContextManager
         \<lparr>cm_space = example_space, cm_context = [(''x'', 30)], cm_gpyopt_space = 1\<rparr>,
       Call_optimize
         \<lparr>cm_space = example_space, cm_context = [(''x'', 30)], cm_gpyopt_space = 1\<rparr>])"
proof -
  have a: "fst ` set (context_items context_in_domain) \<subseteq>
      set (parameter_names (space example_store))"
    by (simp add: example_defs)
  have b: "hook_raises example_acquisition
      (context_manager_of example_store context_in_domain) example_store =
      (Inl ''no maximum found'', example_store)"
    by (simp add: example_defs)
  from hook_exception_propagates
    [where hook = hook_raises and acquisition = example_acquisition and str = example_str
      and eq = "(=)" and ctx = context_in_domain and h = example_store
      and e = "''no maximum found''" and ?h1.0 = example_store] a b
  have "optimize example_str (=) hook_raises example_acquisition context_in_domain
      example_store =
      (Inl (HookRaised ''no maximum found''), example_store,
       domain_logs example_str (space example_store) (context_items context_in_domain) @
       [New_ContextManager (context_manager_of example_store context_in_domain),
        Call_optimize (context_manager_of example_store context_in_domain)])"
    by blast
  then show ?thesis using a b
    by (simp add: example_defs domain_logs_def domain_log_def)
qed

text \<open>
  Claim C9. The constructor writes the two fields of the instance, the space and the
  design space converted from it. \<^verbatim>\<open>optimize\<close> writes nothing: the store after a call
  is the one before it, the one that the hook has left, or the one that the evaluation of
  the acquisition has left. Hence, when the hook and the acquisitions leave the two fields
  alone, the fields still hold the values of the construction after any sequence of calls
  of \<^verbatim>\<open>optimize\<close>.
\<close>

theorem fields_are_written_once:
  assumes "\<forall>call \<in> set calls. \<forall>cm h'. same_fields h' (snd (hook (fst call) cm h'))"
    and "\<forall>call \<in> set calls. \<forall>x h'. same_fields h' (snd (evaluate (fst call) x h'))"
  shows "space (init sp r) = sp \<and>
     gpyopt_space (init sp r) = convert_to_gpyopt_design_space sp \<and>
     space (optimize_calls str eq hook calls (init sp r)) = sp \<and>
     gpyopt_space (optimize_calls str eq hook calls (init sp r)) =
       convert_to_gpyopt_design_space sp \<and>
     (fst (snd (optimize str eq hook acquisition ctx h)) = h \<or>
      fst (snd (optimize str eq hook acquisition ctx h)) =
        snd (hook acquisition (context_manager_of h ctx) h) \<or>
      (\<exists>x. fst (snd (optimize str eq hook acquisition ctx h)) =
        snd (evaluate acquisition x (snd (hook acquisition (context_manager_of h ctx) h)))))"
proof -
  have "same_fields (init sp r) (optimize_calls str eq hook calls (init sp r))"
    using assms by (rule optimize_calls_same_fields)
  then have "space (optimize_calls str eq hook calls (init sp r)) = sp \<and>
     gpyopt_space (optimize_calls str eq hook calls (init sp r)) =
       convert_to_gpyopt_design_space sp"
    by (simp add: same_fields_def init_def)
  moreover have "space (init sp r) = sp \<and>
     gpyopt_space (init sp r) = convert_to_gpyopt_design_space sp"
    by (simp add: init_def)
  ultimately show ?thesis
    using optimize_store [of str eq hook acquisition ctx h] by blast
qed

theorem fields_are_written_once_witness:
  "optimize_calls example_str (=) hook_off_grid
     [(example_acquisition, context_in_domain), (example_acquisition, None)]
     (init example_space 0) = (init example_space 0)\<lparr>rest := 4\<rparr> \<and>
   space (optimize_calls example_str (=) hook_off_grid
     [(example_acquisition, context_in_domain), (example_acquisition, None)]
     (init example_space 0)) = example_space \<and>
   gpyopt_space (optimize_calls example_str (=) hook_off_grid
     [(example_acquisition, context_in_domain), (example_acquisition, None)]
     (init example_space 0)) = 1"
proof -
  have a: "\<forall>call \<in> set [(example_acquisition, context_in_domain), (example_acquisition, None)].
      \<forall>cm h'. same_fields h' (snd (hook_off_grid (fst call) cm h'))"
    by (simp add: same_fields_def hook_off_grid_def example_acquisition_def)
  have b: "\<forall>call \<in> set [(example_acquisition, context_in_domain), (example_acquisition, None)].
      \<forall>x h'. same_fields h' (snd (evaluate (fst call) x h'))"
    by (simp add: same_fields_def example_acquisition_def)
  have c: "optimize_calls example_str (=) hook_off_grid
     [(example_acquisition, context_in_domain), (example_acquisition, None)]
     (init example_space 0) = (init example_space 0)\<lparr>rest := 4\<rparr>"
    by (simp add: optimize_def Let_def example_defs)
  from fields_are_written_once
    [where hook = hook_off_grid and str = example_str and eq = "(=)" and sp = example_space
      and r = 0, OF a b]
  have "space (optimize_calls example_str (=) hook_off_grid
     [(example_acquisition, context_in_domain), (example_acquisition, None)]
     (init example_space 0)) = example_space \<and>
   gpyopt_space (optimize_calls example_str (=) hook_off_grid
     [(example_acquisition, context_in_domain), (example_acquisition, None)]
     (init example_space 0)) = convert_to_gpyopt_design_space example_space"
    by blast
  with c show ?thesis
    by (simp add: example_space_def)
qed

text \<open>
  Claim C10. Let \<^verbatim>\<open>optimize\<close> raise. The base class has not called
  \<^verbatim>\<open>acquisition.evaluate\<close>. If the exception is the \<^verbatim>\<open>ValueError\<close> of the validation,
  the store is as it was and the base class has only called the logger: no context
  manager has been constructed and the hook has not been called. Otherwise the hook has
  raised the exception; the call of the hook is the last action, so nothing is
  constructed after it, and the store is the one that the hook has left. In both cases
  the fields of the instance are as before the call, provided that the hook has not
  written them.
\<close>

theorem failed_call_has_no_effect:
  assumes "fst (optimize str eq hook acquisition ctx h) = Inl err"
  shows "(\<forall>x. Call_evaluate x \<notin> set (snd (snd (optimize str eq hook acquisition ctx h)))) \<and>
     ((\<exists>msg. err = ValueError msg) \<longrightarrow>
      fst (snd (optimize str eq hook acquisition ctx h)) = h \<and>
      (\<forall>a \<in> set (snd (snd (optimize str eq hook acquisition ctx h))). is_Log a)) \<and>
     (\<forall>e. err = HookRaised e \<longrightarrow>
      fst (hook acquisition (context_manager_of h ctx) h) = Inl e \<and>
      fst (snd (optimize str eq hook acquisition ctx h)) =
        snd (hook acquisition (context_manager_of h ctx) h) \<and>
      snd (snd (optimize str eq hook acquisition ctx h)) =
        domain_logs str (space h) (context_items ctx) @
        [New_ContextManager (context_manager_of h ctx),
         Call_optimize (context_manager_of h ctx)]) \<and>
     (same_fields h (snd (hook acquisition (context_manager_of h ctx) h)) \<longrightarrow>
      same_fields h (fst (snd (optimize str eq hook acquisition ctx h))))"
proof (cases rule: optimize_cases
    [where h = h and ctx = ctx and str = str and eq = eq and hook = hook
      and acquisition = acquisition])
  case (rejected pre n v post)
  have "Call_evaluate x \<notin> set (domain_logs str (space h) pre)" for x
    using domain_logs_is_Log [of "Call_evaluate x" str "space h" pre] by auto
  moreover have "\<forall>a \<in> set (domain_logs str (space h) pre). is_Log a"
    using domain_logs_is_Log by blast
  ultimately show ?thesis
    using rejected(4) assms by (auto simp: same_fields_refl)
next
  case (raised e h1)
  have "Call_evaluate x \<notin> set (domain_logs str (space h) (context_items ctx))" for x
    using domain_logs_is_Log [of "Call_evaluate x" str "space h" "context_items ctx"]
    by auto
  then show ?thesis
    using raised(2) raised(3) assms by auto
next
  case (off_grid max_x max_value h1)
  with assms show ?thesis by simp
next
  case (on_grid max_x max_value h1)
  with assms show ?thesis by simp
qed

theorem failed_call_has_no_effect_witness:
  "fst (optimize example_str (=) hook_raises example_acquisition context_in_domain
     example_store) = Inl (HookRaised ''no maximum found'') \<and>
   same_fields example_store (snd (hook_raises example_acquisition
     (context_manager_of example_store context_in_domain) example_store)) \<and>
   (\<forall>x. Call_evaluate x \<notin> set (snd (snd (optimize example_str (=) hook_raises
     example_acquisition context_in_domain example_store)))) \<and>
   same_fields example_store (fst (snd (optimize example_str (=) hook_raises
     example_acquisition context_in_domain example_store))) \<and>
   fst (optimize example_str (=) hook_off_grid example_acquisition context_unknown_name
     example_store) =
     Inl (ValueError ''y appears as variable in context but not in the parameter space.'') \<and>
   fst (snd (optimize example_str (=) hook_off_grid example_acquisition context_unknown_name
     example_store)) = example_store \<and>
   snd (snd (optimize example_str (=) hook_off_grid example_acquisition
     context_unknown_name example_store)) =
     [Log WARNING ''x with value 250'' ['' is out of the domain'']]"
proof -
  have a: "fst (optimize example_str (=) hook_raises example_acquisition context_in_domain
     example_store) = Inl (HookRaised ''no maximum found'')"
    by (simp add: optimize_def Let_def example_defs)
  have b: "same_fields example_store (snd (hook_raises example_acquisition
     (context_manager_of example_store context_in_domain) example_store))"
    by (simp add: same_fields_def hook_raises_def)
  have c: "fst (optimize example_str (=) hook_off_grid example_acquisition
     context_unknown_name example_store) =
     Inl (ValueError ''y appears as variable in context but not in the parameter space.'')"
    by (simp add: optimize_def Let_def example_defs)
  from failed_call_has_no_effect
    [where hook = hook_raises and acquisition = example_acquisition and str = example_str
      and eq = "(=)", OF a]
    failed_call_has_no_effect
    [where hook = hook_off_grid and acquisition = example_acquisition and str = example_str
      and eq = "(=)", OF c]
  have "(\<forall>x. Call_evaluate x \<notin> set (snd (snd (optimize example_str (=) hook_raises
       example_acquisition context_in_domain example_store)))) \<and>
     same_fields example_store (fst (snd (optimize example_str (=) hook_raises
       example_acquisition context_in_domain example_store))) \<and>
     fst (snd (optimize example_str (=) hook_off_grid example_acquisition
       context_unknown_name example_store)) = example_store"
    using a b c by blast
  moreover have "snd (snd (optimize example_str (=) hook_off_grid example_acquisition
     context_unknown_name example_store)) =
     [Log WARNING ''x with value 250'' ['' is out of the domain'']]"
    by (simp add: optimize_def Let_def example_defs domain_log_def)
  ultimately show ?thesis using a b c by blast
qed

end
